theory Spec2Isabelle
  imports Complex_Main "HOL-Library.Sublist" "HOL-Library.Multiset" "HOL-Library.Product_Lexorder"
begin

section \<open>Python values used by \<open>app/server_backup.py\<close>\<close>

text \<open>
  A Python \<open>str\<close> is a sequence of Unicode code points; \<open>len\<close> counts code points. A string
  is therefore modelled as a list of code points (natural numbers), not as a byte string.
  Similarity scores are Python/NumPy floats; they are modelled as real numbers, so rounding
  and NaN are outside the model. The only exception the retrieval and answer functions can
  raise on their own is \<open>IndexError\<close>.
\<close>

type_synonym pystr = "nat list"

datatype py_error = IndexError

text \<open>\<open>str.isspace\<close> on one character: the code points Python treats as whitespace
  (\<open>str.strip()\<close>, \<open>str.split()\<close> and the regular expression class \<open>\s\<close> all use it).\<close>

definition py_isspace :: "nat \<Rightarrow> bool" where
  "py_isspace c \<longleftrightarrow>
     (9 \<le> c \<and> c \<le> 13) \<or> (28 \<le> c \<and> c \<le> 32) \<or> c = 133 \<or> c = 160 \<or> c = 5760 \<or>
     (8192 \<le> c \<and> c \<le> 8202) \<or> c = 8232 \<or> c = 8233 \<or> c = 8239 \<or> c = 8287 \<or> c = 12288"

text \<open>\<open>s.strip()\<close>: drop leading and trailing whitespace.\<close>

definition strip :: "pystr \<Rightarrow> pystr" where
  "strip s = rev (dropWhile py_isspace (rev (dropWhile py_isspace s)))"

text \<open>\<open>s.split()\<close> without arguments: the maximal runs of non-whitespace characters, in
  order. The first argument is the token being scanned.\<close>

fun split_ws :: "pystr \<Rightarrow> pystr \<Rightarrow> pystr list" where
  "split_ws cur [] = (if cur = [] then [] else [cur])"
| "split_ws cur (c # cs) =
     (if py_isspace c then (if cur = [] then split_ws [] cs else cur # split_ws [] cs)
      else split_ws (cur @ [c]) cs)"

definition py_split :: "pystr \<Rightarrow> pystr list" where
  "py_split s = split_ws [] s"

text \<open>\<open>w in ch\<close> on strings: \<open>w\<close> occurs in \<open>ch\<close> as a contiguous substring.\<close>

fun py_in :: "pystr \<Rightarrow> pystr \<Rightarrow> bool" where
  "py_in w [] = (w = [])"
| "py_in w (c # cs) = (prefix w (c # cs) \<or> py_in w cs)"

text \<open>\<open>ans.split(s)[0]\<close> for a non-empty separator \<open>s\<close>: the part of \<open>ans\<close> before the first
  occurrence of \<open>s\<close>, all of \<open>ans\<close> when \<open>s\<close> does not occur.\<close>

fun split_head :: "pystr \<Rightarrow> pystr \<Rightarrow> pystr" where
  "split_head s [] = []"
| "split_head s (c # cs) = (if prefix s (c # cs) then [] else c # split_head s cs)"

text \<open>\<open>xs[i]\<close> on a list: a negative index counts from the end, an index out of range
  raises \<open>IndexError\<close>.\<close>

definition py_index :: "'a list \<Rightarrow> int \<Rightarrow> py_error + 'a" where
  "py_index xs i =
     (if 0 \<le> i \<and> i < int (length xs) then Inr (xs ! nat i)
      else if - int (length xs) \<le> i \<and> i < 0 then Inr (xs ! nat (int (length xs) + i))
      else Inl IndexError)"

text \<open>\<open>list(dict.fromkeys(words))\<close>: the keys of a dictionary in insertion order; inserting
  a key that is already present leaves its position unchanged.\<close>

definition fromkeys :: "'a list \<Rightarrow> 'a list" where
  "fromkeys ws = fold (\<lambda>w ks. if w \<in> set ks then ks else ks @ [w]) ws []"

text \<open>\<open>sorted(xs, key=f, reverse=True)\<close>: CPython reverses the list, sorts it stably in
  ascending key order and reverses the result, which keeps elements with equal keys in
  their original order.\<close>

definition sorted_reverse :: "('a \<Rightarrow> 'k::linorder) \<Rightarrow> 'a list \<Rightarrow> 'a list" where
  "sorted_reverse f xs = rev (sort_key f (rev xs))"

section \<open>Configuration constants\<close>

definition TOP_K :: nat where
  "TOP_K = 5"

definition SEARCH_K :: nat where
  "SEARCH_K = 80"

definition DONT_KNOW_THRESHOLD :: real where
  "DONT_KNOW_THRESHOLD = 72 / 100"

definition AR_STOP :: "pystr set" where
  "AR_STOP = {
     [1605, 1575], [1607, 1610], [1607, 1604], [1571, 1610, 1606], [1605, 1606],
     [1601, 1610], [1593, 1604, 1609], [1573, 1604, 1609], [1593, 1606],
     [1607, 1584, 1575], [1607, 1584, 1607], [1584, 1604, 1603],
     [1578, 1603, 1608, 1606], [1610, 1603, 1608, 1606], [1603, 1605],
     [1605, 1578, 1609], [1604, 1605, 1575, 1584, 1575], [1603, 1610, 1601],
     [1605, 1575, 1607, 1608], [1605, 1575, 1607, 1610], [1607, 1608], [1607, 1610],
     [1567]}"

text \<open>The refusal message of \<open>build_answer\<close>, 76 code points.\<close>

definition REFUSAL :: pystr where
  "REFUSAL =
     [1604, 1575, 32, 1571, 1593, 1604, 1605, 1548, 32, 1604, 1610, 1587, 32, 1604, 1583,
      1610, 32, 1605, 1593, 1604, 1608, 1605, 1575, 1578, 32, 1603, 1575, 1601, 1610, 1577,
      32, 1593, 1606, 32, 1607, 1584, 1575, 32, 1575, 1604, 1587, 1572, 1575, 1604, 32,
      1581, 1575, 1604, 1610, 1611, 1575, 1548, 32, 1604, 1603, 1606, 1606, 1610, 32, 1601,
      1610, 32, 1605, 1585, 1581, 1604, 1577, 32, 1575, 1604, 1578, 1591, 1608, 1610, 1585,
      46]"

text \<open>The delimiter list of \<open>build_answer\<close>: U+06D4, \<open>.\<close>, \<open>!\<close>, U+061F and newline.\<close>

definition splitters :: "pystr list" where
  "splitters = [[1748], [46], [33], [1567], [10]]"

section \<open>The environment: corpus, index and character tables\<close>

text \<open>
  The module loads the corpus \<open>chunks\<close>, the encoder \<open>e5\<close> and the FAISS \<open>index\<close> once.
  Encoder and index belong to external libraries; \<open>search q k\<close> stands for
  \<open>index.search(e5.encode([q], ...), k)\<close> and gives the rows \<open>(scores[0], idxs[0])\<close>.
  \<open>is_word\<close> is the Unicode table behind the regular expression class \<open>\w\<close>.
\<close>

record env =
  chunks :: "pystr list"
  search :: "pystr \<Rightarrow> nat \<Rightarrow> real list \<times> int list"
  is_word :: "nat \<Rightarrow> bool"

section \<open>Retrieval helpers\<close>

text \<open>The \<open>re.sub\<close> of \<open>_keywords_ar\<close>: every character that is neither a word character
  (\<open>\w\<close>), nor whitespace (\<open>\s\<close>), nor in U+0600..U+06FF becomes a space.\<close>

definition re_sub_ar :: "(nat \<Rightarrow> bool) \<Rightarrow> pystr \<Rightarrow> pystr" where
  "re_sub_ar isw text =
     map (\<lambda>c. if isw c \<or> py_isspace c \<or> (1536 \<le> c \<and> c \<le> 1791) then c else 32) text"

definition keywords_ar :: "(nat \<Rightarrow> bool) \<Rightarrow> pystr \<Rightarrow> pystr list" where
  "keywords_ar isw text =
     (let text1 = re_sub_ar isw text;
          words = map strip (filter (\<lambda>w. length (strip w) \<ge> 3) (py_split text1));
          words1 = filter (\<lambda>w. w \<notin> AR_STOP) words
      in fromkeys words1)"

text \<open>The local function \<open>kw_score\<close> of \<open>retrieve_chunks\<close>, with the keyword list it closes
  over as first argument: \<open>sum(1 for w in kws if w in ch)\<close>.\<close>

definition kw_score :: "pystr list \<Rightarrow> pystr \<Rightarrow> int" where
  "kw_score kws ch = sum_list (map (\<lambda>w. 1) (filter (\<lambda>w. py_in w ch) kws))"

text \<open>\<open>[chunks[i] for i in idxs[0]]\<close>: the first index out of range raises.\<close>

fun lookup_all :: "pystr list \<Rightarrow> int list \<Rightarrow> py_error + pystr list" where
  "lookup_all cs [] = Inr []"
| "lookup_all cs (i # is) =
     (case py_index cs i of
        Inl e \<Rightarrow> Inl e
      | Inr c \<Rightarrow> (case lookup_all cs is of Inl e \<Rightarrow> Inl e | Inr rest \<Rightarrow> Inr (c # rest)))"

text \<open>\<open>top_k\<close> and \<open>search_k\<close> are non-negative counts (the only caller uses the defaults
  5 and 80).\<close>

definition retrieve_chunks ::
  "env \<Rightarrow> pystr \<Rightarrow> nat \<Rightarrow> nat \<Rightarrow> py_error + (pystr list \<times> real list)" where
  "retrieve_chunks e question top_k search_k =
     (let q = [113, 117, 101, 114, 121, 58, 32] @ strip question;
          (scores, idxs) = search e q search_k
      in case lookup_all (chunks e) idxs of
           Inl err \<Rightarrow> Inl err
         | Inr candidates \<Rightarrow>
             let cand_scores = scores;
                 kws = keywords_ar (is_word e) question;
                 ranked = sorted_reverse (\<lambda>x. (kw_score kws (fst x), snd x))
                            (zip candidates cand_scores);
                 best = take top_k ranked
             in Inr (map fst best, map snd best))"

section \<open>Answer extraction\<close>

text \<open>The loop over \<open>splitters\<close> with its \<open>break\<close>: the first list entry that occurs in
  \<open>ans\<close> decides.\<close>

fun split_loop :: "pystr list \<Rightarrow> pystr \<Rightarrow> pystr" where
  "split_loop [] ans = ans"
| "split_loop (s # ss) ans =
     (if py_in s ans then strip (split_head s ans) else split_loop ss ans)"

text \<open>\<open>scores[0] if scores else 0.0\<close>.\<close>

definition best_score_of :: "real list \<Rightarrow> real" where
  "best_score_of scores = (case scores of [] \<Rightarrow> 0 | s # _ \<Rightarrow> s)"

definition build_answer :: "pystr \<Rightarrow> pystr list \<Rightarrow> real list \<Rightarrow> py_error + (pystr \<times> real)" where
  "build_answer question retrieved scores =
     (let best_score = best_score_of scores
      in if best_score < DONT_KNOW_THRESHOLD then Inr (REFUSAL, best_score)
         else case py_index retrieved 0 of
                Inl err \<Rightarrow> Inl err
              | Inr top_chunk \<Rightarrow>
                  let text = strip top_chunk;
                      ans = split_loop splitters text;
                      ans1 = (if length ans < 18 then strip (take 220 text) else ans)
                  in Inr (ans1, best_score))"

section \<open>The route \<open>/ask\<close>\<close>

record response =
  r_question :: pystr
  r_answer :: pystr
  r_best_score :: real
  r_chunks :: "pystr list"
  r_scores :: "real list"

definition ask :: "env \<Rightarrow> pystr \<Rightarrow> py_error + response" where
  "ask e req_question =
     (let question = strip req_question
      in case retrieve_chunks e question TOP_K SEARCH_K of
           Inl err \<Rightarrow> Inl err
         | Inr (retrieved, scores) \<Rightarrow>
             (case build_answer question retrieved scores of
                Inl err \<Rightarrow> Inl err
              | Inr (answer, best_score) \<Rightarrow>
                  Inr \<lparr>r_question = question, r_answer = answer, r_best_score = best_score,
                       r_chunks = retrieved, r_scores = scores\<rparr>))"

section \<open>Reference definitions\<close>

text \<open>Deduplication that keeps the first occurrence of every element, in order.\<close>

fun first_occurrences :: "'a list \<Rightarrow> 'a list" where
  "first_occurrences [] = []"
| "first_occurrences (x # xs) = x # first_occurrences (filter (\<lambda>y. y \<noteq> x) xs)"


text \<open>
  A FAISS index always answers \<open>search(x, k)\<close> with \<open>k\<close> columns: when it stores fewer
  than \<open>k\<close> vectors, the missing columns carry the label \<open>-1\<close> and, for inner-product
  similarity, the score \<open>-FLT_MAX\<close>. \<open>search_padded sims k\<close> is such an answer for an index
  whose vectors \<open>0, 1, ...\<close> have the similarities \<open>sims\<close> (in descending order) to the query.
\<close>

definition FLT_MAX :: real where
  "FLT_MAX = 340282346638528859811704183484516925440"

definition search_padded :: "real list \<Rightarrow> nat \<Rightarrow> real list \<times> int list" where
  "search_padded sims k =
     (take k sims @ replicate (k - length sims) (- FLT_MAX),
      map int [0..<min k (length sims)] @ replicate (k - length sims) (- 1))"

text \<open>A corpus of one chunk, \<open>abc\<close>, with similarity 0.9 to every query.\<close>

definition one_chunk_env :: env where
  "one_chunk_env =
     \<lparr>chunks = [[97, 98, 99]], search = (\<lambda>q. search_padded [9 / 10]), is_word = (\<lambda>c. False)\<rparr>"

text \<open>A corpus of four chunks, \<open>foo bar.\<close>, \<open>xyz\<close>, \<open>xyw\<close> and \<open>food\<close>, whose index ranks
  them 3, 1, 2, 0 for every query; the word characters are the lower-case ASCII letters.\<close>

definition demo_env :: env where
  "demo_env =
     \<lparr>chunks = [[102, 111, 111, 32, 98, 97, 114, 46], [120, 121, 122], [120, 121, 119],
                [102, 111, 111, 100]],
      search = (\<lambda>q k. (take k [19 / 20, 9 / 10, 9 / 10, 4 / 5], take k [3, 1, 2, 0])),
      is_word = (\<lambda>c. 97 \<le> c \<and> c \<le> 122)\<rparr>"

text \<open>The same corpus behind an index that answers with \<open>k\<close> columns, the missing ones
  padded as FAISS pads them.\<close>

definition demo_padded_env :: env where
  "demo_padded_env =
     demo_env\<lparr>search := (\<lambda>q k.
       (take k [19 / 20, 9 / 10, 9 / 10, 4 / 5] @ replicate (k - 4) (- FLT_MAX),
        take k [3, 1, 2, 0] @ replicate (k - 4) (- 1)))\<rparr>"

section \<open>Strings: membership, trimming, splitting\<close>

lemma py_in_sublist: "py_in w ch = sublist w ch"
  by (induction ch) (auto simp: sublist_Cons_right)

lemma sublist_strip: "sublist (strip s) s"
proof -
  have "suffix (dropWhile py_isspace s) s"
    by (rule suffix_dropWhile)
  moreover have "prefix (rev (dropWhile py_isspace (rev t))) t" for t :: pystr
    by (metis prefix_def rev_append rev_rev_ident suffix_def suffix_dropWhile)
  ultimately show ?thesis
    unfolding strip_def
    by (meson prefix_imp_sublist sublist_order.order.trans suffix_imp_sublist)
qed

lemma prefix_split_head: "prefix (split_head s xs) xs"
  by (induction xs) auto

lemma sublist_split_loop: "sublist (split_loop ss a) a"
proof (induction ss)
  case Nil
  show ?case by simp
next
  case (Cons s ss)
  have "sublist (strip (split_head s a)) a"
    using sublist_strip prefix_split_head prefix_imp_sublist sublist_order.order.trans
    by blast
  with Cons show ?case by simp
qed

section \<open>Corpus lookup, sorting and retrieval\<close>

lemma lookup_all_length: "lookup_all cs is = Inr xs \<Longrightarrow> length xs = length is"
  by (induction "is" arbitrary: xs) (auto split: sum.splits)

lemma py_index_member: "py_index cs i = Inr x \<Longrightarrow> x \<in> set cs"
  by (auto simp: py_index_def split: if_splits)

lemma lookup_all_set: "lookup_all cs is = Inr xs \<Longrightarrow> set xs \<subseteq> set cs"
proof (induction "is" arbitrary: xs)
  case Nil
  then show ?case by simp
next
  case (Cons i "is")
  then show ?case
    by (auto split: sum.splits dest: py_index_member)
qed

lemma lookup_all_replicate:
  "py_index cs i = Inr x \<Longrightarrow> lookup_all cs (replicate n i) = Inr (replicate n x)"
  by (induction n) simp_all

lemma length_sorted_reverse: "length (sorted_reverse f xs) = length xs"
  by (simp add: sorted_reverse_def)

lemma mset_sorted_reverse: "mset (sorted_reverse f xs) = mset xs"
  by (simp add: sorted_reverse_def)

lemma sorted_reverse_descending:
  "sorted_wrt (\<lambda>a b. f b \<le> f a) (sorted_reverse f xs)"
proof -
  have "sorted (map f (sort_key f (rev xs)))" by (rule sorted_sort_key)
  then have "sorted_wrt (\<lambda>a b. f a \<le> f b) (sort_key f (rev xs))"
    by (simp add: sorted_wrt_map)
  then show ?thesis
    by (simp add: sorted_reverse_def sorted_wrt_rev)
qed

lemma sorted_reverse_stable:
  "filter (\<lambda>x. f x = k) (sorted_reverse f xs) = filter (\<lambda>x. f x = k) xs"
  by (simp add: sorted_reverse_def rev_filter [symmetric] sort_key_stable)

lemma sorted_reverse_id:
  assumes "sorted_wrt (\<lambda>a b. f b \<le> f a) xs"
  shows "sorted_reverse f xs = xs"
proof -
  from assms have "sorted (map f (rev xs))"
    by (simp add: sorted_wrt_map sorted_wrt_rev)
  then have "sort_key f (rev xs) = rev xs" by (rule sort_key_id_if_sorted)
  then show ?thesis by (simp add: sorted_reverse_def)
qed

lemma insort_key_skip:
  "\<forall>y\<in>set pre. f y < f x \<Longrightarrow> insort_key f x (pre @ post) = pre @ insort_key f x post"
  by (induction pre) auto

lemma insort_key_front:
  "post = [] \<or> f x \<le> f (hd post) \<Longrightarrow> insort_key f x post = x # post"
  by (cases post) auto

lemma foldr_insort_replicate:
  assumes "\<forall>y\<in>set pre. f y < f x" and "post = [] \<or> f x \<le> f (hd post)"
  shows "foldr (insort_key f) (replicate n x) (pre @ post) = pre @ replicate n x @ post"
proof (induction n)
  case 0
  show ?case by simp
next
  case (Suc n)
  have "insort_key f x (replicate n x @ post) = x # replicate n x @ post"
    using assms(2) by (intro insort_key_front) (cases n, auto)
  with Suc assms(1) show ?case by (simp add: insort_key_skip)
qed

lemma sorted_reverse_padded:
  assumes "sort_key f (rev xs) = pre @ post"
    and "\<forall>y\<in>set pre. f y < f p" and "post = [] \<or> f p \<le> f (hd post)"
  shows "sorted_reverse f (xs @ replicate n p) = rev post @ replicate n p @ rev pre"
proof -
  have "sort_key f (replicate n p @ rev xs) =
          foldr (insort_key f) (replicate n p) (sort_key f (rev xs))"
    by (simp add: sort_key_def)
  also have "\<dots> = pre @ replicate n p @ post"
    unfolding assms(1) using assms(2,3) by (rule foldr_insort_replicate)
  finally show ?thesis by (simp add: sorted_reverse_def)
qed

lemma lookup_all_append:
  "lookup_all cs is = Inr xs \<Longrightarrow> lookup_all cs js = Inr ys \<Longrightarrow>
   lookup_all cs (is @ js) = Inr (xs @ ys)"
  by (induction "is" arbitrary: xs) (auto split: sum.splits)

lemma retrieve_chunks_unfold:
  assumes "search e ([113, 117, 101, 114, 121, 58, 32] @ strip question) search_k = (scores, idxs)"
    and "lookup_all (chunks e) idxs = Inr candidates"
  shows "retrieve_chunks e question top_k search_k =
           Inr (map fst (take top_k (sorted_reverse
                  (\<lambda>x. (kw_score (keywords_ar (is_word e) question) (fst x), snd x))
                  (zip candidates scores))),
                map snd (take top_k (sorted_reverse
                  (\<lambda>x. (kw_score (keywords_ar (is_word e) question) (fst x), snd x))
                  (zip candidates scores))))"
  using assms by (simp add: retrieve_chunks_def Let_def)

lemma retrieve_chunks_error:
  assumes "search e ([113, 117, 101, 114, 121, 58, 32] @ strip question) search_k = (scores, idxs)"
    and "lookup_all (chunks e) idxs = Inl err"
  shows "retrieve_chunks e question top_k search_k = Inl err"
  using assms by (simp add: retrieve_chunks_def Let_def)

lemma retrieve_chunks_lengths:
  assumes "retrieve_chunks e question top_k search_k = Inr (cs, ss)"
    and "search e ([113, 117, 101, 114, 121, 58, 32] @ strip question) search_k = (scores, idxs)"
  shows "length cs = length ss \<and> length cs = min top_k (min (length idxs) (length scores))
         \<and> set cs \<subseteq> set (chunks e)"
proof (cases "lookup_all (chunks e) idxs")
  case (Inl err)
  with assms show ?thesis by (simp add: retrieve_chunks_error)
next
  case (Inr candidates)
  let ?ranked = "sorted_reverse
    (\<lambda>x. (kw_score (keywords_ar (is_word e) question) (fst x), snd x)) (zip candidates scores)"
  from assms Inr have cs: "cs = map fst (take top_k ?ranked)"
    and ss: "ss = map snd (take top_k ?ranked)"
    by (simp_all add: retrieve_chunks_unfold)
  have len: "length candidates = length idxs"
    using Inr by (rule lookup_all_length)
  have "set ?ranked = set (zip candidates scores)"
    using mset_sorted_reverse by (metis set_mset_mset)
  then have "fst ` set ?ranked \<subseteq> set candidates"
    by (auto dest: set_zip_leftD)
  moreover have "set (take top_k ?ranked) \<subseteq> set ?ranked" by (rule set_take_subset)
  moreover have "set candidates \<subseteq> set (chunks e)" using Inr by (rule lookup_all_set)
  ultimately have "set cs \<subseteq> set (chunks e)"
    unfolding cs by auto
  then show ?thesis
    using len by (simp add: cs ss length_sorted_reverse)
qed

lemma retrieve_chunks_same_length:
  assumes "retrieve_chunks e question top_k search_k = Inr (cs, ss)"
  shows "length cs = length ss"
proof -
  obtain scores idxs where
    "search e ([113, 117, 101, 114, 121, 58, 32] @ strip question) search_k = (scores, idxs)"
    by (cases "search e ([113, 117, 101, 114, 121, 58, 32] @ strip question) search_k")
  with assms show ?thesis using retrieve_chunks_lengths by blast
qed

lemma sorted_wrt_replicate: "P y y \<Longrightarrow> sorted_wrt P (replicate n y)"
  by (induction n) simp_all

lemma retrieve_chunks_padded:
  assumes "chunks e = [c]"
    and "search e ([113, 117, 101, 114, 121, 58, 32] @ strip question) (Suc k)
           = (s # replicate k p, 0 # replicate k (- 1))"
    and "p \<le> s"
  shows "retrieve_chunks e question (Suc t) (Suc k) =
           Inr (replicate (Suc (min t k)) c, s # replicate (min t k) p)"
proof -
  have i0: "py_index [c] 0 = Inr c" and i1: "py_index [c] (- 1) = Inr c"
    by (simp_all add: py_index_def)
  have look: "lookup_all (chunks e) (0 # replicate k (- 1)) = Inr (replicate (Suc k) c)"
    using assms(1) i0 lookup_all_replicate [OF i1, of k] by simp
  let ?key = "\<lambda>x. (kw_score (keywords_ar (is_word e) question) (fst x), snd x)"
  have z: "zip (replicate (Suc k) c) (s # replicate k p) = (c, s) # replicate k (c, p)"
    by simp
  have "sorted_wrt (\<lambda>a b. ?key b \<le> ?key a) ((c, s) # replicate k (c, p))"
    using assms(3) by (simp add: sorted_wrt_replicate)
  then have "sorted_reverse ?key ((c, s) # replicate k (c, p)) = (c, s) # replicate k (c, p)"
    by (rule sorted_reverse_id)
  then show ?thesis
    using retrieve_chunks_unfold [OF assms(2) look, of "Suc t"] z
    by (simp add: min_def)
qed

lemma one_chunk_search:
  "search one_chunk_env q (Suc k) = (9 / 10 # replicate k (- FLT_MAX), 0 # replicate k (- 1))"
  by (simp add: one_chunk_env_def search_padded_def)

section \<open>The two branches of \<open>build_answer\<close>\<close>

lemma build_answer_low:
  "best_score_of scores < DONT_KNOW_THRESHOLD \<Longrightarrow>
   build_answer question retrieved scores = Inr (REFUSAL, best_score_of scores)"
  by (simp add: build_answer_def)

lemma build_answer_high:
  "\<not> best_score_of scores < DONT_KNOW_THRESHOLD \<Longrightarrow>
   build_answer question (top_chunk # rest) scores =
     Inr (if length (split_loop splitters (strip top_chunk)) < 18
          then strip (take 220 (strip top_chunk))
          else split_loop splitters (strip top_chunk), best_score_of scores)"
  by (simp add: build_answer_def py_index_def Let_def)

lemma build_answer_empty:
  "\<not> best_score_of scores < DONT_KNOW_THRESHOLD \<Longrightarrow>
   build_answer question [] scores = Inl IndexError"
  by (simp add: build_answer_def py_index_def)

lemma build_answer_score:
  "build_answer question retrieved scores = Inr (a, b) \<Longrightarrow> b = best_score_of scores"
  by (auto simp: build_answer_def Let_def split: if_splits sum.splits)

lemma build_answer_paired:
  assumes "length retrieved = length scores"
  shows "\<exists>a. build_answer question retrieved scores = Inr (a, best_score_of scores)"
proof (cases "best_score_of scores < DONT_KNOW_THRESHOLD")
  case True
  then show ?thesis by (simp add: build_answer_low)
next
  case False
  then have "scores \<noteq> []"
    by (auto simp: best_score_of_def DONT_KNOW_THRESHOLD_def)
  with assms obtain top_chunk rest where "retrieved = top_chunk # rest"
    by (cases retrieved) auto
  with False show ?thesis by (simp add: build_answer_high)
qed

section \<open>Delimiter splitting and trimming\<close>

lemma split_head_decomp: "sublist s text \<Longrightarrow> \<exists>rest. text = split_head s text @ s @ rest"
proof (induction "text")
  case Nil
  then show ?case by simp
next
  case (Cons c cs)
  show ?case
  proof (cases "prefix s (c # cs)")
    case True
    then show ?thesis by (auto simp: prefix_def)
  next
    case False
    with Cons.prems have "sublist s cs" by (simp add: sublist_Cons_right)
    then obtain rest where "cs = split_head s cs @ s @ rest" using Cons.IH by blast
    with False show ?thesis by auto
  qed
qed

lemma split_head_first: "text = pre @ s @ rest \<Longrightarrow> length (split_head s text) \<le> length pre"
proof (induction "text" arbitrary: pre)
  case Nil
  then show ?case by simp
next
  case (Cons c cs)
  show ?case
  proof (cases "prefix s (c # cs)")
    case True
    then show ?thesis by simp
  next
    case False
    with Cons.prems have "pre \<noteq> []" by (auto simp: prefix_def)
    then obtain pre' where p: "pre = c # pre'" "cs = pre' @ s @ rest"
      using Cons.prems by (cases pre) auto
    from Cons.IH [OF p(2)] False p(1) show ?thesis by simp
  qed
qed

lemma split_loop_none: "\<forall>d\<in>set ss. \<not> sublist d text \<Longrightarrow> split_loop ss text = text"
  by (induction ss) (simp_all add: py_in_sublist)

lemma split_loop_first:
  "i < length ss \<Longrightarrow> sublist (ss ! i) text \<Longrightarrow> \<forall>j<i. \<not> sublist (ss ! j) text \<Longrightarrow>
   split_loop ss text = strip (split_head (ss ! i) text)"
proof (induction ss arbitrary: i)
  case Nil
  then show ?case by simp
next
  case (Cons d ds)
  show ?case
  proof (cases i)
    case 0
    with Cons.prems show ?thesis by (simp add: py_in_sublist)
  next
    case (Suc k)
    with Cons.prems have "\<not> sublist d text" by auto
    moreover have "split_loop ds text = strip (split_head (ds ! k) text)"
      using Cons.prems Suc by (intro Cons.IH) auto
    ultimately show ?thesis using Suc by (simp add: py_in_sublist)
  qed
qed

lemma strip_id: "\<forall>c\<in>set w. \<not> py_isspace c \<Longrightarrow> strip w = w"
proof -
  assume a: "\<forall>c\<in>set w. \<not> py_isspace c"
  then have "dropWhile py_isspace w = w" by (cases w) auto
  moreover from a have "dropWhile py_isspace (rev w) = rev w" by (cases "rev w") auto
  ultimately show ?thesis by (simp add: strip_def)
qed

lemma strip_no_leading: "strip s = [] \<or> \<not> py_isspace (hd (strip s))"
proof -
  let ?d = "dropWhile py_isspace s"
  have p: "prefix (strip s) ?d"
    unfolding strip_def
    by (metis prefix_def rev_append rev_rev_ident suffix_def suffix_dropWhile)
  show ?thesis
  proof (cases "strip s")
    case Nil
    then show ?thesis by simp
  next
    case (Cons c cs)
    with p obtain zs where z: "?d = c # cs @ zs" by (auto simp: prefix_def)
    then have "\<not> py_isspace c"
      using hd_dropWhile [of py_isspace s] by (metis list.distinct(1) list.sel(1))
    with Cons show ?thesis by simp
  qed
qed

lemma strip_take_strip:
  "strip (take n (strip s)) = rev (dropWhile py_isspace (rev (take n (strip s))))"
proof -
  have "take n (strip s) = [] \<or> \<not> py_isspace (hd (take n (strip s)))"
    using strip_no_leading [of s] by (cases n) auto
  then have "dropWhile py_isspace (take n (strip s)) = take n (strip s)"
    by (simp add: dropWhile_eq_self_iff)
  then show ?thesis by (simp add: strip_def)
qed

lemma build_answer_no_delimiter:
  assumes "\<not> best_score_of scores < DONT_KNOW_THRESHOLD"
    and "\<forall>d\<in>set splitters. \<not> sublist d (strip top_chunk)"
    and "18 \<le> length (strip top_chunk)"
  shows "build_answer question (top_chunk # others) scores = Inr (strip top_chunk, best_score_of scores)"
  using assms by (simp add: build_answer_high split_loop_none)

section \<open>Tokens, deduplication and keyword scores\<close>




lemma fold_fromkeys:
  "fold (\<lambda>w ks. if w \<in> set ks then ks else ks @ [w]) ws acc =
     acc @ first_occurrences (filter (\<lambda>w. w \<notin> set acc) ws)"
proof (induction ws arbitrary: acc)
  case Nil
  then show ?case by simp
next
  case (Cons w ws)
  have "filter (\<lambda>y. y \<noteq> w) (filter (\<lambda>v. v \<notin> set acc) ws) =
        filter (\<lambda>v. v \<notin> set (acc @ [w])) ws"
    by (induction ws) auto
  with Cons show ?case by simp
qed

lemma fromkeys_first_occurrences: "fromkeys ws = first_occurrences ws"
  by (simp add: fromkeys_def fold_fromkeys)

lemma set_first_occurrences: "set (first_occurrences xs) = set xs"
  by (induction xs rule: first_occurrences.induct) auto

lemma distinct_first_occurrences: "distinct (first_occurrences xs)"
  by (induction xs rule: first_occurrences.induct) (auto simp: set_first_occurrences)


lemma distinct_keywords_ar: "distinct (keywords_ar isw question)"
  by (simp add: keywords_ar_def Let_def fromkeys_first_occurrences distinct_first_occurrences)

lemma kw_score_length: "kw_score kws ch = int (length (filter (\<lambda>w. sublist w ch) kws))"
  by (induction kws) (simp_all add: kw_score_def py_in_sublist)

section \<open>The example corpora, evaluated\<close>

lemma replicate_five: "replicate 5 x = [x, x, x, x, x]"
  by (simp add: numeral_eq_Suc)

lemma replicate_four: "replicate 4 x = [x, x, x, x]"
  by (simp add: numeral_eq_Suc)

lemma demo_strip: "strip [102, 111, 111, 32, 98, 97, 114] = [102, 111, 111, 32, 98, 97, 114]"
  by (simp add: strip_def py_isspace_def)

lemma demo_keywords: "keywords_ar (is_word demo_env) [102, 111, 111, 32, 98, 97, 114] = [[102, 111, 111], [98, 97, 114]]"
  by (simp add: keywords_ar_def re_sub_ar_def py_split_def strip_def py_isspace_def AR_STOP_def
      fromkeys_def demo_env_def)

lemma demo_kw_score_0: "kw_score [[102, 111, 111], [98, 97, 114]] [102, 111, 111, 32, 98, 97, 114, 46] = 2"
  and demo_kw_score_1: "kw_score [[102, 111, 111], [98, 97, 114]] [120, 121, 122] = 0"
  and demo_kw_score_2: "kw_score [[102, 111, 111], [98, 97, 114]] [120, 121, 119] = 0"
  and demo_kw_score_3: "kw_score [[102, 111, 111], [98, 97, 114]] [102, 111, 111, 100] = 1"
  by (simp_all add: kw_score_def)

lemma demo_lookup: "lookup_all (chunks demo_env) [3, 1, 2, 0] =
   Inr [[102, 111, 111, 100], [120, 121, 122], [120, 121, 119], [102, 111, 111, 32, 98, 97, 114, 46]]"
  by (simp add: demo_env_def py_index_def)

lemma demo_search:
  "search demo_env ([113, 117, 101, 114, 121, 58, 32] @ strip [102, 111, 111, 32, 98, 97, 114]) SEARCH_K
     = ([19 / 20, 9 / 10, 9 / 10, 4 / 5], [3, 1, 2, 0])"
  by (simp add: demo_env_def SEARCH_K_def)

lemma demo_retrieve:
  "retrieve_chunks demo_env [102, 111, 111, 32, 98, 97, 114] TOP_K SEARCH_K =
     Inr ([[102, 111, 111, 32, 98, 97, 114, 46], [102, 111, 111, 100], [120, 121, 122],
           [120, 121, 119]],
          [4 / 5, 19 / 20, 9 / 10, 9 / 10])"
  using retrieve_chunks_unfold [OF demo_search demo_lookup, of TOP_K]
  by (simp add: demo_keywords demo_kw_score_0 demo_kw_score_1 demo_kw_score_2 demo_kw_score_3 sorted_reverse_def TOP_K_def)

lemma demo_answer:
  "build_answer [102, 111, 111, 32, 98, 97, 114]
     [[102, 111, 111, 32, 98, 97, 114, 46], [102, 111, 111, 100], [120, 121, 122], [120, 121, 119]]
     [4 / 5, 19 / 20, 9 / 10, 9 / 10] =
   Inr ([102, 111, 111, 32, 98, 97, 114, 46], 4 / 5)"
  by (simp add: build_answer_high best_score_of_def DONT_KNOW_THRESHOLD_def splitters_def
      strip_def py_isspace_def)

lemma demo_ask:
  "ask demo_env [102, 111, 111, 32, 98, 97, 114] =
     Inr \<lparr>r_question = [102, 111, 111, 32, 98, 97, 114],
          r_answer = [102, 111, 111, 32, 98, 97, 114, 46], r_best_score = 4 / 5,
          r_chunks = [[102, 111, 111, 32, 98, 97, 114, 46], [102, 111, 111, 100],
                      [120, 121, 122], [120, 121, 119]],
          r_scores = [4 / 5, 19 / 20, 9 / 10, 9 / 10]\<rparr>"
  by (simp add: ask_def Let_def demo_strip demo_retrieve demo_answer)

lemma silent_ask:
  "ask (demo_env\<lparr>search := (\<lambda>q k. ([], []))\<rparr>) [102, 111, 111] =
     Inr \<lparr>r_question = [102, 111, 111], r_answer = REFUSAL, r_best_score = 0,
          r_chunks = [], r_scores = []\<rparr>"
  by (simp add: ask_def retrieve_chunks_def sorted_reverse_def build_answer_def best_score_of_def
      DONT_KNOW_THRESHOLD_def strip_def py_isspace_def)

lemma replicate_three: "replicate 3 x = [x, x, x]"
  by (simp add: numeral_eq_Suc)

lemma demo_padded_search:
  "search demo_padded_env ([113, 117, 101, 114, 121, 58, 32] @ strip [102, 111, 111, 32, 98, 97, 114])
     SEARCH_K
     = ([19 / 20, 9 / 10, 9 / 10, 4 / 5] @ replicate 76 (- FLT_MAX),
        [3, 1, 2, 0] @ replicate 76 (- 1))"
  by (simp add: demo_padded_env_def SEARCH_K_def)

lemma demo_padded_lookup:
  "lookup_all (chunks demo_padded_env) ([3, 1, 2, 0] @ replicate 76 (- 1)) =
     Inr ([[102, 111, 111, 100], [120, 121, 122], [120, 121, 119],
           [102, 111, 111, 32, 98, 97, 114, 46]] @ replicate 76 [102, 111, 111, 100])"
proof -
  have c: "chunks demo_padded_env = chunks demo_env"
    by (simp add: demo_padded_env_def)
  have "py_index (chunks demo_env) (- 1) = Inr [102, 111, 111, 100]"
    by (simp add: demo_env_def py_index_def)
  then have "lookup_all (chunks demo_env) (replicate 76 (- 1)) = Inr (replicate 76 [102, 111, 111, 100])"
    by (rule lookup_all_replicate)
  with demo_lookup show ?thesis
    unfolding c by (rule lookup_all_append)
qed

lemma demo_padded_ranked:
  "sorted_reverse (\<lambda>x. (kw_score [[102, 111, 111], [98, 97, 114]] (fst x), snd x))
     (([102, 111, 111, 100], 19 / 20) # ([120, 121, 122], 9 / 10) # ([120, 121, 119], 9 / 10) #
      ([102, 111, 111, 32, 98, 97, 114, 46], 4 / 5) #
      replicate 76 ([102, 111, 111, 100], - FLT_MAX)) =
   ([102, 111, 111, 32, 98, 97, 114, 46], 4 / 5) # ([102, 111, 111, 100], 19 / 20) #
   replicate 76 ([102, 111, 111, 100], - FLT_MAX) @
   [([120, 121, 122], 9 / 10), ([120, 121, 119], 9 / 10)]"
proof -
  let ?key = "\<lambda>x. (kw_score [[102, 111, 111], [98, 97, 114]] (fst x), snd x :: real)"
  let ?pad = "([102, 111, 111, 100], - FLT_MAX)"
  have h1: "sort_key ?key
     (rev [([102, 111, 111, 100], 19 / 20), ([120, 121, 122], 9 / 10), ([120, 121, 119], 9 / 10),
           ([102, 111, 111, 32, 98, 97, 114, 46], 4 / 5)]) =
     [([120, 121, 119], 9 / 10), ([120, 121, 122], 9 / 10)] @
     [([102, 111, 111, 100], 19 / 20), ([102, 111, 111, 32, 98, 97, 114, 46], 4 / 5)]"
    by (simp add: demo_kw_score_0 demo_kw_score_1 demo_kw_score_2 demo_kw_score_3)
  have h2: "\<forall>y\<in>set [([120, 121, 119], 9 / 10), ([120, 121, 122], 9 / 10)]. ?key y < ?key ?pad"
    by (simp add: demo_kw_score_1 demo_kw_score_2 demo_kw_score_3)
  have h3: "[([102, 111, 111, 100], 19 / 20), ([102, 111, 111, 32, 98, 97, 114, 46], 4 / 5)] = [] \<or>
      ?key ?pad \<le> ?key (hd [([102, 111, 111, 100], 19 / 20),
                              ([102, 111, 111, 32, 98, 97, 114, 46], 4 / 5)])"
    by (simp add: demo_kw_score_3 FLT_MAX_def)
  from sorted_reverse_padded [OF h1 h2 h3, of 76] show ?thesis by simp
qed

lemma demo_padded_retrieve:
  "retrieve_chunks demo_padded_env [102, 111, 111, 32, 98, 97, 114] TOP_K SEARCH_K =
     Inr ([[102, 111, 111, 32, 98, 97, 114, 46], [102, 111, 111, 100], [102, 111, 111, 100],
           [102, 111, 111, 100], [102, 111, 111, 100]],
          [4 / 5, 19 / 20, - FLT_MAX, - FLT_MAX, - FLT_MAX])"
proof -
  have w: "is_word demo_padded_env = is_word demo_env"
    by (simp add: demo_padded_env_def)
  show ?thesis
    using retrieve_chunks_unfold [OF demo_padded_search demo_padded_lookup, of TOP_K]
    by (simp add: w demo_keywords demo_padded_ranked TOP_K_def replicate_three)
qed

lemma demo_padded_answer:
  "build_answer [102, 111, 111, 32, 98, 97, 114]
     [[102, 111, 111, 32, 98, 97, 114, 46], [102, 111, 111, 100], [102, 111, 111, 100],
      [102, 111, 111, 100], [102, 111, 111, 100]]
     [4 / 5, 19 / 20, - FLT_MAX, - FLT_MAX, - FLT_MAX] =
   Inr ([102, 111, 111, 32, 98, 97, 114, 46], 4 / 5)"
  by (simp add: build_answer_high best_score_of_def DONT_KNOW_THRESHOLD_def splitters_def
      strip_def py_isspace_def)

lemma demo_padded_retrieve_none:
  "retrieve_chunks demo_padded_env [102, 111, 111, 32, 98, 97, 114] 0 SEARCH_K = Inr ([], [])"
  using retrieve_chunks_unfold [OF demo_padded_search demo_padded_lookup, of 0]
  by simp

section \<open>Properties: the size of the result\<close>

text \<open>
  C1. For every question the lists \<open>chunks\<close> and \<open>scores\<close> of the response should have the
  same length \<open>min(top_k, search_k, corpus_size)\<close> and hold only genuine corpus entries, no
  more than the corpus has. \<open>retrieve_chunks\<close> does not meet this behind an index that pads
  its columns: line 71 reads the label \<open>-1\<close> of a missing result as a Python index, which is
  the last chunk. With the defaults 5 and 80, a corpus of one chunk yields that chunk five
  times where the bound is 1, and the corpus of four chunks yields \<open>food\<close> four times, three
  of them with the score \<open>-FLT_MAX\<close>, in place of the genuine hits \<open>xyz\<close> and \<open>xyw\<close>.
\<close>

theorem padding_rows_enter_result:
  "retrieve_chunks one_chunk_env [97] TOP_K SEARCH_K =
     Inr ([[97, 98, 99], [97, 98, 99], [97, 98, 99], [97, 98, 99], [97, 98, 99]],
          [9 / 10, - FLT_MAX, - FLT_MAX, - FLT_MAX, - FLT_MAX]) \<and>
   min TOP_K (min SEARCH_K (length (chunks one_chunk_env))) = 1 \<and>
   retrieve_chunks demo_padded_env [102, 111, 111, 32, 98, 97, 114] TOP_K SEARCH_K =
     Inr ([[102, 111, 111, 32, 98, 97, 114, 46], [102, 111, 111, 100], [102, 111, 111, 100],
           [102, 111, 111, 100], [102, 111, 111, 100]],
          [4 / 5, 19 / 20, - FLT_MAX, - FLT_MAX, - FLT_MAX]) \<and>
   min TOP_K (min SEARCH_K (length (chunks demo_padded_env))) = 4"
proof -
  have c: "chunks one_chunk_env = [[97, 98, 99]]" by (simp add: one_chunk_env_def)
  have p: "- FLT_MAX \<le> 9 / 10" by (simp add: FLT_MAX_def)
  have "retrieve_chunks one_chunk_env [97] (Suc 4) (Suc 79) =
          Inr (replicate (Suc (min 4 79)) [97, 98, 99], 9 / 10 # replicate (min 4 79) (- FLT_MAX))"
    using c one_chunk_search p by (rule retrieve_chunks_padded)
  then have "retrieve_chunks one_chunk_env [97] TOP_K SEARCH_K =
     Inr ([[97, 98, 99], [97, 98, 99], [97, 98, 99], [97, 98, 99], [97, 98, 99]],
          [9 / 10, - FLT_MAX, - FLT_MAX, - FLT_MAX, - FLT_MAX])"
    by (simp add: TOP_K_def SEARCH_K_def replicate_five replicate_four)
  moreover have "min TOP_K (min SEARCH_K (length (chunks one_chunk_env))) = 1"
    by (simp add: TOP_K_def SEARCH_K_def c)
  moreover have "min TOP_K (min SEARCH_K (length (chunks demo_padded_env))) = 4"
    by (simp add: TOP_K_def SEARCH_K_def demo_padded_env_def demo_env_def)
  ultimately show ?thesis
    using demo_padded_retrieve by simp
qed

section \<open>Properties: the confidence gate\<close>

text \<open>
  C2. If the similarity score of the first reranked entry, or 0.0 when there is none, is
  strictly below the threshold 0.72, \<open>build_answer\<close> returns exactly the fixed refusal
  string, whatever the retrieved chunks contain, paired with that score.
\<close>

theorem refusal_below_threshold:
  assumes "(case scores of [] \<Rightarrow> 0 | s # _ \<Rightarrow> s) < (72 / 100 :: real)"
  shows "build_answer question retrieved scores =
           Inr (REFUSAL, (case scores of [] \<Rightarrow> 0 | s # _ \<Rightarrow> s))"
  using assms build_answer_low [of scores question retrieved]
  by (simp add: best_score_of_def DONT_KNOW_THRESHOLD_def)

theorem refusal_below_threshold_witness:
  "(case [1 / 2] of [] \<Rightarrow> 0 | s # _ \<Rightarrow> s) < (72 / 100 :: real) \<and>
   build_answer [63] [[97, 46, 98]] [1 / 2] = Inr (REFUSAL, 1 / 2) \<and>
   build_answer [63] [] [] = Inr (REFUSAL, 0)"
  using refusal_below_threshold [of "[1 / 2]" "[63]" "[[97, 46, 98]]"]
    refusal_below_threshold [of "[]" "[63]" "[]"]
  by simp

section \<open>Properties: the extracted answer\<close>

text \<open>
  C3. In the extraction branch the delimiter list U+06D4, \<open>.\<close>, \<open>!\<close>, U+061F, newline is
  scanned in that order: the first list entry that occurs anywhere in the trimmed text
  decides, the text is cut at the first occurrence of that entry and the part before it is
  kept, trimmed, whether or not another delimiter occurs earlier in the text; when no entry
  occurs the trimmed text is kept whole. The answer is this candidate, or the fallback when
  the candidate has fewer than 18 characters.
\<close>

theorem delimiter_priority:
  assumes "\<not> best_score_of scores < DONT_KNOW_THRESHOLD" and "text = strip top_chunk"
  shows "(\<forall>i<length splitters.
            sublist (splitters ! i) text \<and> (\<forall>j<i. \<not> sublist (splitters ! j) text) \<longrightarrow>
            (\<exists>pre rest. text = pre @ splitters ! i @ rest \<and>
               (\<forall>pre' rest'. text = pre' @ splitters ! i @ rest' \<longrightarrow> length pre \<le> length pre') \<and>
               split_loop splitters text = strip pre)) \<and>
         ((\<forall>d\<in>set splitters. \<not> sublist d text) \<longrightarrow> split_loop splitters text = text) \<and>
         build_answer question (top_chunk # others) scores =
           Inr (if length (split_loop splitters text) < 18 then strip (take 220 text)
                else split_loop splitters text, best_score_of scores) \<and>
         splitters = [[1748], [46], [33], [1567], [10]]"
proof -
  have "\<exists>pre rest. text = pre @ splitters ! i @ rest \<and>
               (\<forall>pre' rest'. text = pre' @ splitters ! i @ rest' \<longrightarrow> length pre \<le> length pre') \<and>
               split_loop splitters text = strip pre"
    if i: "i < length splitters" and s: "sublist (splitters ! i) text"
      and n: "\<forall>j<i. \<not> sublist (splitters ! j) text" for i
  proof -
    obtain rest where "text = split_head (splitters ! i) text @ splitters ! i @ rest"
      using split_head_decomp [OF s] by blast
    moreover have "\<forall>pre' rest'. text = pre' @ splitters ! i @ rest' \<longrightarrow>
        length (split_head (splitters ! i) text) \<le> length pre'"
      using split_head_first by blast
    moreover have "split_loop splitters text = strip (split_head (splitters ! i) text)"
      using i s n by (rule split_loop_first)
    ultimately show ?thesis by blast
  qed
  moreover have "(\<forall>d\<in>set splitters. \<not> sublist d text) \<longrightarrow> split_loop splitters text = text"
    using split_loop_none by blast
  moreover have "build_answer question (top_chunk # others) scores =
           Inr (if length (split_loop splitters text) < 18 then strip (take 220 text)
                else split_loop splitters text, best_score_of scores)"
    using assms by (simp add: build_answer_high)
  moreover have "splitters = [[1748], [46], [33], [1567], [10]]"
    by (simp add: splitters_def)
  ultimately show ?thesis by blast
qed

theorem delimiter_priority_witness:
  "\<not> best_score_of [9 / 10] < DONT_KNOW_THRESHOLD \<and>
   sublist [33 :: nat] [97, 97, 97, 97, 97, 97, 97, 97, 97, 97, 97, 97, 97, 97, 97, 97, 97, 97, 97, 97,
                 33, 98, 98, 98, 46, 99, 99, 99] \<and>
   build_answer []
     [[32, 97, 97, 97, 97, 97, 97, 97, 97, 97, 97, 97, 97, 97, 97, 97, 97, 97, 97, 97, 97,
       33, 98, 98, 98, 46, 99, 99, 99, 32]] [9 / 10] =
     Inr ([97, 97, 97, 97, 97, 97, 97, 97, 97, 97, 97, 97, 97, 97, 97, 97, 97, 97, 97, 97,
           33, 98, 98, 98], 9 / 10)"
proof -
  have b: "\<not> best_score_of [9 / 10] < DONT_KNOW_THRESHOLD"
    by (simp add: best_score_of_def DONT_KNOW_THRESHOLD_def)
  have t: "[97, 97, 97, 97, 97, 97, 97, 97, 97, 97, 97, 97, 97, 97, 97, 97, 97, 97, 97, 97,
            33, 98, 98, 98, 46, 99, 99, 99] =
     strip [32, 97, 97, 97, 97, 97, 97, 97, 97, 97, 97, 97, 97, 97, 97, 97, 97, 97, 97, 97, 97,
            33, 98, 98, 98, 46, 99, 99, 99, 32]"
    by (simp add: strip_def py_isspace_def)
  have l: "split_loop splitters
      [97, 97, 97, 97, 97, 97, 97, 97, 97, 97, 97, 97, 97, 97, 97, 97, 97, 97, 97, 97,
       33, 98, 98, 98, 46, 99, 99, 99] =
      [97, 97, 97, 97, 97, 97, 97, 97, 97, 97, 97, 97, 97, 97, 97, 97, 97, 97, 97, 97,
       33, 98, 98, 98]"
    by (simp add: splitters_def strip_def py_isspace_def)
  have e: "sublist [33 :: nat] [97, 97, 97, 97, 97, 97, 97, 97, 97, 97, 97, 97, 97, 97, 97, 97, 97, 97,
                         97, 97, 33, 98, 98, 98, 46, 99, 99, 99]"
    by (simp add: py_in_sublist [symmetric])
  from delimiter_priority [OF b t, of "[]" "[]"] have
    "build_answer []
       [[32, 97, 97, 97, 97, 97, 97, 97, 97, 97, 97, 97, 97, 97, 97, 97, 97, 97, 97, 97, 97,
         33, 98, 98, 98, 46, 99, 99, 99, 32]] [9 / 10] =
     Inr ([97, 97, 97, 97, 97, 97, 97, 97, 97, 97, 97, 97, 97, 97, 97, 97, 97, 97, 97, 97,
           33, 98, 98, 98], best_score_of [9 / 10])"
    by (simp add: l)
  with b e show ?thesis by (simp add: best_score_of_def)
qed

text \<open>
  A chunk of 300 letters without any delimiter is returned whole: its candidate has 300
  characters, so the fallback to the first 220 characters is not taken.
\<close>

theorem fallback_counterexample:
  "build_answer [] [replicate 300 97] [9 / 10] = Inr (replicate 300 97, 9 / 10) \<and>
   replicate 300 97 \<noteq> take 220 (replicate 300 (97::nat))"
proof -
  have s: "strip (replicate 300 97) = replicate 300 97"
    by (rule strip_id) (simp add: py_isspace_def)
  have b: "\<not> best_score_of [9 / 10] < DONT_KNOW_THRESHOLD"
    by (simp add: best_score_of_def DONT_KNOW_THRESHOLD_def)
  have d: "\<forall>d\<in>set splitters. \<not> sublist d (strip (replicate 300 97))"
    unfolding s by (auto simp: splitters_def dest: set_mono_sublist)
  have "build_answer [] (replicate 300 97 # []) [9 / 10]
          = Inr (strip (replicate 300 97), best_score_of [9 / 10])"
    using b d by (rule build_answer_no_delimiter) (simp add: s)
  moreover have "length (replicate 300 (97::nat)) \<noteq> length (take 220 (replicate 300 (97::nat)))"
    by simp
  ultimately show ?thesis
    by (auto simp: s best_score_of_def)
qed

text \<open>
  C4. In the extraction branch, if the candidate produced by delimiter splitting has
  fewer than 18 characters, the answer is the first 220 characters of the trimmed top-chunk
  text with trailing whitespace removed. A trimmed text of at least 18 characters that
  contains none of the delimiters is its own candidate and is returned whole, however long
  it is.
\<close>

theorem short_candidate_fallback:
  assumes "\<not> best_score_of scores < DONT_KNOW_THRESHOLD" and "text = strip top_chunk"
  shows "(length (split_loop splitters text) < 18 \<longrightarrow>
            build_answer question (top_chunk # others) scores =
              Inr (strip (take 220 text), best_score_of scores) \<and>
            strip (take 220 text) = rev (dropWhile py_isspace (rev (take 220 text)))) \<and>
         ((\<forall>d\<in>set splitters. \<not> sublist d text) \<and> 18 \<le> length text \<longrightarrow>
            build_answer question (top_chunk # others) scores = Inr (text, best_score_of scores))"
  using assms build_answer_no_delimiter [of scores top_chunk question others]
  by (simp add: build_answer_high strip_take_strip)

theorem short_candidate_fallback_witness:
  "\<not> best_score_of [9 / 10] < DONT_KNOW_THRESHOLD \<and>
   length (split_loop splitters (strip [97, 98, 46, 32, 99, 100])) < 18 \<and>
   build_answer [] [[97, 98, 46, 32, 99, 100]] [9 / 10] = Inr ([97, 98, 46, 32, 99, 100], 9 / 10) \<and>
   filter (\<lambda>d. sublist d (replicate 20 97)) splitters = [] \<and>
   18 \<le> length (replicate 20 (97::nat)) \<and>
   build_answer [] [replicate 20 97] [9 / 10] = Inr (replicate 20 97, 9 / 10)"
proof -
  have b: "\<not> best_score_of [9 / 10] < DONT_KNOW_THRESHOLD"
    by (simp add: best_score_of_def DONT_KNOW_THRESHOLD_def)
  have t: "[97, 98, 46, 32, 99, 100] = strip [97, 98, 46, 32, 99, 100]"
    by (simp add: strip_def py_isspace_def)
  have l: "length (split_loop splitters [97, 98, 46, 32, 99, 100]) < 18"
    by (simp add: splitters_def strip_def py_isspace_def)
  have k: "strip (take 220 [97, 98, 46, 32, 99, 100]) = [97, 98, 46, 32, 99, 100]"
    by (simp add: strip_def py_isspace_def)
  have s: "replicate 20 97 = strip (replicate 20 97)"
    by (rule strip_id [symmetric]) (simp add: py_isspace_def)
  have d: "\<forall>d\<in>set splitters. \<not> sublist d (replicate 20 97)"
    by (auto simp: splitters_def dest: set_mono_sublist)
  have "build_answer [] [[97, 98, 46, 32, 99, 100]] [9 / 10] =
          Inr ([97, 98, 46, 32, 99, 100], best_score_of [9 / 10])"
    using short_candidate_fallback [OF b t, of "[]" "[]"] l k by simp
  moreover have "build_answer [] [replicate 20 97] [9 / 10] =
          Inr (replicate 20 97, best_score_of [9 / 10])"
    using short_candidate_fallback [OF b s, of "[]" "[]"] d by simp
  moreover from d have "filter (\<lambda>d. sublist d (replicate 20 97)) splitters = []"
    by (simp add: filter_empty_conv)
  ultimately show ?thesis
    using b l t by (simp add: best_score_of_def)
qed

section \<open>Properties: reranking\<close>

text \<open>
  C5. The reranker returns the first \<open>top_k\<close> entries of a list \<open>ranked\<close> that is a
  permutation of the candidate list, descending by keyword score and, among equal keyword
  scores, descending by similarity score, and in which the candidates of every class of
  equal (keyword score, similarity score) keys stand in the order they had in the input
  list.
\<close>

theorem rerank_stable_descending:
  assumes "search e ([113, 117, 101, 114, 121, 58, 32] @ strip question) search_k = (scores, idxs)"
    and "lookup_all (chunks e) idxs = Inr candidates"
  shows "\<exists>ranked.
           retrieve_chunks e question top_k search_k =
             Inr (map fst (take top_k ranked), map snd (take top_k ranked)) \<and>
           mset ranked = mset (zip candidates scores) \<and>
           sorted_wrt (\<lambda>a b.
               kw_score (keywords_ar (is_word e) question) (fst b)
                 < kw_score (keywords_ar (is_word e) question) (fst a) \<or>
               (kw_score (keywords_ar (is_word e) question) (fst b)
                  = kw_score (keywords_ar (is_word e) question) (fst a) \<and> snd b \<le> snd a))
             ranked \<and>
           (\<forall>n s. filter (\<lambda>x. kw_score (keywords_ar (is_word e) question) (fst x) = n \<and> snd x = s)
                     ranked =
                   filter (\<lambda>x. kw_score (keywords_ar (is_word e) question) (fst x) = n \<and> snd x = s)
                     (zip candidates scores))"
proof -
  let ?key = "\<lambda>x. (kw_score (keywords_ar (is_word e) question) (fst x), snd x)"
  let ?ranked = "sorted_reverse ?key (zip candidates scores)"
  have "sorted_wrt (\<lambda>a b. ?key b \<le> ?key a) ?ranked"
    by (rule sorted_reverse_descending)
  then have d: "sorted_wrt (\<lambda>a b.
               kw_score (keywords_ar (is_word e) question) (fst b)
                 < kw_score (keywords_ar (is_word e) question) (fst a) \<or>
               (kw_score (keywords_ar (is_word e) question) (fst b)
                  = kw_score (keywords_ar (is_word e) question) (fst a) \<and> snd b \<le> snd a))
             ?ranked"
    by (rule sorted_wrt_mono_rel [rotated]) auto
  have s: "filter (\<lambda>x. kw_score (keywords_ar (is_word e) question) (fst x) = n \<and> snd x = s)
             ?ranked =
           filter (\<lambda>x. kw_score (keywords_ar (is_word e) question) (fst x) = n \<and> snd x = s)
             (zip candidates scores)" for n s
    using sorted_reverse_stable [of ?key "(n, s)" "zip candidates scores"] by simp
  show ?thesis
    using retrieve_chunks_unfold [OF assms, of top_k] mset_sorted_reverse [of ?key] d s
    by blast
qed

theorem rerank_stable_descending_witness:
  "search demo_env ([113, 117, 101, 114, 121, 58, 32] @ strip [102, 111, 111, 32, 98, 97, 114]) SEARCH_K
     = ([19 / 20, 9 / 10, 9 / 10, 4 / 5], [3, 1, 2, 0]) \<and>
   lookup_all (chunks demo_env) [3, 1, 2, 0] =
     Inr [[102, 111, 111, 100], [120, 121, 122], [120, 121, 119],
          [102, 111, 111, 32, 98, 97, 114, 46]] \<and>
   retrieve_chunks demo_env [102, 111, 111, 32, 98, 97, 114] TOP_K SEARCH_K =
     Inr ([[102, 111, 111, 32, 98, 97, 114, 46], [102, 111, 111, 100], [120, 121, 122],
           [120, 121, 119]],
          [4 / 5, 19 / 20, 9 / 10, 9 / 10]) \<and>
   (\<exists>ranked.
      retrieve_chunks demo_env [102, 111, 111, 32, 98, 97, 114] TOP_K SEARCH_K =
        Inr (map fst (take TOP_K ranked), map snd (take TOP_K ranked)) \<and>
      mset ranked = mset (zip [[102, 111, 111, 100], [120, 121, 122], [120, 121, 119],
                               [102, 111, 111, 32, 98, 97, 114, 46]]
                              [19 / 20, 9 / 10, 9 / 10, 4 / 5]))"
  using rerank_stable_descending [OF demo_search demo_lookup, of TOP_K] demo_search demo_lookup demo_retrieve
  by blast

section \<open>Properties: keywords\<close>

text \<open>
  C6. The keyword score of a chunk is the number of distinct extracted keywords that
  occur in the chunk as a contiguous substring; a keyword counts once, however often it
  occurs and also when it occurs only inside a longer word.
\<close>

theorem kw_score_counts_distinct_keywords:
  "kw_score (keywords_ar isw question) ch =
     int (card {w \<in> set (keywords_ar isw question). sublist w ch})"
proof -
  let ?K = "keywords_ar isw question"
  have "length (filter (\<lambda>w. sublist w ch) ?K) = card ({w. sublist w ch} \<inter> set ?K)"
    using distinct_keywords_ar by (rule distinct_length_filter)
  moreover have "{w. sublist w ch} \<inter> set ?K = {w \<in> set ?K. sublist w ch}"
    by blast
  ultimately have "length (filter (\<lambda>w. sublist w ch) ?K) = card {w \<in> set ?K. sublist w ch}"
    by (simp only:)
  then show ?thesis
    by (simp only: kw_score_length)
qed

theorem kw_score_counts_distinct_keywords_witness:
  "kw_score (keywords_ar (is_word demo_env) [102, 111, 111, 32, 98, 97, 114])
     [102, 111, 111, 100, 32, 102, 111, 111] = 1 \<and>
   card {w \<in> set (keywords_ar (is_word demo_env) [102, 111, 111, 32, 98, 97, 114]).
           sublist w [102, 111, 111, 100, 32, 102, 111, 111]} = 1"
proof -
  have "kw_score [[102, 111, 111], [98, 97, 114]] [102, 111, 111, 100, 32, 102, 111, 111] = 1"
    by (simp add: kw_score_def)
  then show ?thesis
    using kw_score_counts_distinct_keywords
      [of "is_word demo_env" "[102, 111, 111, 32, 98, 97, 114]"
          "[102, 111, 111, 100, 32, 102, 111, 111]"]
    by (simp only: demo_keywords) simp
qed



section \<open>Properties: the response\<close>

text \<open>
  C8. The field \<open>best_score\<close> of every response is the first entry of its \<open>scores\<close>
  list when that list is non-empty, and 0.0 when there are no candidates.
\<close>

theorem best_score_is_first_score:
  assumes "ask e req = Inr r"
  shows "r_best_score r = (case r_scores r of [] \<Rightarrow> 0 | s # _ \<Rightarrow> s)"
proof -
  from assms obtain retrieved scores answer b where
    "build_answer (strip req) retrieved scores = Inr (answer, b)"
    and r: "r = \<lparr>r_question = strip req, r_answer = answer, r_best_score = b,
                 r_chunks = retrieved, r_scores = scores\<rparr>"
    by (auto simp: ask_def Let_def split: sum.splits prod.splits)
  then have "b = best_score_of scores" by (simp add: build_answer_score)
  with r show ?thesis by (simp add: best_score_of_def)
qed

theorem best_score_is_first_score_witness:
  "ask demo_env [102, 111, 111, 32, 98, 97, 114] =
     Inr \<lparr>r_question = [102, 111, 111, 32, 98, 97, 114],
          r_answer = [102, 111, 111, 32, 98, 97, 114, 46], r_best_score = 4 / 5,
          r_chunks = [[102, 111, 111, 32, 98, 97, 114, 46], [102, 111, 111, 100],
                      [120, 121, 122], [120, 121, 119]],
          r_scores = [4 / 5, 19 / 20, 9 / 10, 9 / 10]\<rparr> \<and>
   r_best_score \<lparr>r_question = [102, 111, 111, 32, 98, 97, 114],
          r_answer = [102, 111, 111, 32, 98, 97, 114, 46], r_best_score = 4 / 5,
          r_chunks = [[102, 111, 111, 32, 98, 97, 114, 46], [102, 111, 111, 100],
                      [120, 121, 122], [120, 121, 119]],
          r_scores = [4 / 5, 19 / 20, 9 / 10, 9 / 10]\<rparr> = 4 / 5 \<and>
   ask (demo_env\<lparr>search := (\<lambda>q k. ([], []))\<rparr>) [102, 111, 111] =
     Inr \<lparr>r_question = [102, 111, 111], r_answer = REFUSAL, r_best_score = 0,
          r_chunks = [], r_scores = []\<rparr>"
  using best_score_is_first_score [OF demo_ask] best_score_is_first_score [OF silent_ask]
    demo_ask silent_ask
  by simp

text \<open>
  C9. Whenever the confidence gate passes, the answer is a contiguous substring of the
  text of the top-ranked chunk: the extraction branch only trims and cuts that text.
\<close>

theorem answer_is_substring:
  assumes "retrieved = top_chunk # rest"
    and "\<not> best_score_of scores < DONT_KNOW_THRESHOLD"
  shows "\<exists>a. build_answer question retrieved scores = Inr (a, best_score_of scores) \<and>
             sublist a top_chunk"
proof -
  let ?text = "strip top_chunk"
  have t: "sublist ?text top_chunk" by (rule sublist_strip)
  have "sublist (split_loop splitters ?text) ?text" by (rule sublist_split_loop)
  with t have a: "sublist (split_loop splitters ?text) top_chunk"
    using sublist_order.order.trans by blast
  have "sublist (strip (take 220 ?text)) (take 220 ?text)" by (rule sublist_strip)
  moreover have "sublist (take 220 ?text) ?text" by (rule sublist_take)
  ultimately have b: "sublist (strip (take 220 ?text)) top_chunk"
    using t sublist_order.order.trans by blast
  show ?thesis
    using assms a b by (simp add: build_answer_high)
qed

theorem answer_is_substring_witness:
  "\<not> best_score_of [9 / 10] < DONT_KNOW_THRESHOLD \<and>
   (\<exists>a. build_answer [] [[32, 97, 46, 98], [99]] [9 / 10] = Inr (a, best_score_of [9 / 10]) \<and>
        sublist a [32, 97, 46, 98])"
  using answer_is_substring [of "[[32, 97, 46, 98], [99]]" "[32, 97, 46, 98]" "[[99]]" "[9 / 10]" "[]"]
  by (simp add: best_score_of_def DONT_KNOW_THRESHOLD_def)

text \<open>
  C10. The access to \<open>retrieved[0]\<close> in the extraction branch of \<open>build_answer\<close> is always in
  bounds: \<open>build_answer\<close> is called with the two lists \<open>retrieve_chunks\<close> returns, which have
  the same length, so whenever \<open>retrieved\<close> is empty the score defaults to 0.0, which is below
  0.72, the refusal branch is taken, and the extraction branch is reached only with a
  non-empty \<open>retrieved\<close>. An \<open>IndexError\<close> of \<open>ask\<close> therefore always comes from the corpus
  lookup of \<open>retrieve_chunks\<close>.
\<close>

theorem retrieved_access_in_bounds:
  "(retrieve_chunks e question top_k search_k = Inr (retrieved, scores) \<longrightarrow>
      (\<exists>a. build_answer q retrieved scores = Inr (a, best_score_of scores)) \<and>
      (retrieved = [] \<longrightarrow>
         best_score_of scores = 0 \<and> build_answer q retrieved scores = Inr (REFUSAL, 0)) \<and>
      (\<not> best_score_of scores < DONT_KNOW_THRESHOLD \<longrightarrow> retrieved \<noteq> [])) \<and>
   (length retrieved = length scores \<longrightarrow>
      (\<exists>a. build_answer q retrieved scores = Inr (a, best_score_of scores)) \<and>
      (retrieved = [] \<longrightarrow> build_answer q retrieved scores = Inr (REFUSAL, 0))) \<and>
   (ask e req = Inl err \<longrightarrow> retrieve_chunks e (strip req) TOP_K SEARCH_K = Inl err)"
proof -
  have empty: "build_answer q [] [] = Inr (REFUSAL, 0)" and zero: "best_score_of [] = 0"
    and low: "best_score_of [] < DONT_KNOW_THRESHOLD"
    using build_answer_low [of "[]" q "[]"]
    by (simp_all add: best_score_of_def DONT_KNOW_THRESHOLD_def)
  have paired: "(\<exists>a. build_answer q retrieved scores = Inr (a, best_score_of scores)) \<and>
      (retrieved = [] \<longrightarrow>
         best_score_of scores = 0 \<and> build_answer q retrieved scores = Inr (REFUSAL, 0)) \<and>
      (\<not> best_score_of scores < DONT_KNOW_THRESHOLD \<longrightarrow> retrieved \<noteq> [])"
    if len: "length retrieved = length scores"
  proof -
    have "\<exists>a. build_answer q retrieved scores = Inr (a, best_score_of scores)"
      using len by (rule build_answer_paired)
    moreover have "scores = []" if "retrieved = []"
      using that len by simp
    ultimately show ?thesis
      using empty zero low by auto
  qed
  have "length retrieved = length scores"
    if "retrieve_chunks e question top_k search_k = Inr (retrieved, scores)"
    using that by (rule retrieve_chunks_same_length)
  moreover have "retrieve_chunks e (strip req) TOP_K SEARCH_K = Inl err" if a: "ask e req = Inl err"
  proof (cases "retrieve_chunks e (strip req) TOP_K SEARCH_K")
    case (Inl err')
    with a show ?thesis by (simp add: ask_def)
  next
    case (Inr p)
    obtain cs ss where p: "p = (cs, ss)" by (cases p)
    have "length cs = length ss"
      using Inr p retrieve_chunks_same_length by blast
    then obtain ans where "build_answer (strip req) cs ss = Inr (ans, best_score_of ss)"
      using build_answer_paired by blast
    with a Inr p show ?thesis by (simp add: ask_def)
  qed
  ultimately show ?thesis
    using paired by blast
qed

theorem retrieved_access_in_bounds_witness:
  "retrieve_chunks demo_padded_env [102, 111, 111, 32, 98, 97, 114] TOP_K SEARCH_K =
     Inr ([[102, 111, 111, 32, 98, 97, 114, 46], [102, 111, 111, 100], [102, 111, 111, 100],
           [102, 111, 111, 100], [102, 111, 111, 100]],
          [4 / 5, 19 / 20, - FLT_MAX, - FLT_MAX, - FLT_MAX]) \<and>
   build_answer [102, 111, 111, 32, 98, 97, 114]
     [[102, 111, 111, 32, 98, 97, 114, 46], [102, 111, 111, 100], [102, 111, 111, 100],
      [102, 111, 111, 100], [102, 111, 111, 100]]
     [4 / 5, 19 / 20, - FLT_MAX, - FLT_MAX, - FLT_MAX] =
     Inr ([102, 111, 111, 32, 98, 97, 114, 46], 4 / 5) \<and>
   retrieve_chunks demo_padded_env [102, 111, 111, 32, 98, 97, 114] 0 SEARCH_K = Inr ([], []) \<and>
   best_score_of [] = 0 \<and>
   build_answer [102, 111, 111, 32, 98, 97, 114] [] [] = Inr (REFUSAL, 0)"
  using retrieved_access_in_bounds
      [of demo_padded_env "[102, 111, 111, 32, 98, 97, 114]" TOP_K SEARCH_K
          "[[102, 111, 111, 32, 98, 97, 114, 46], [102, 111, 111, 100], [102, 111, 111, 100],
            [102, 111, 111, 100], [102, 111, 111, 100]]"
          "[4 / 5, 19 / 20, - FLT_MAX, - FLT_MAX, - FLT_MAX]" "[102, 111, 111, 32, 98, 97, 114]"]
    retrieved_access_in_bounds
      [of demo_padded_env "[102, 111, 111, 32, 98, 97, 114]" 0 SEARCH_K "[]" "[]"
          "[102, 111, 111, 32, 98, 97, 114]"]
    demo_padded_retrieve demo_padded_retrieve_none demo_padded_answer
  by simp

end
